theory Spec2Isabelle
  imports Complex_Main
begin

section \<open>Numbers and objects\<close>

text \<open>
  A JavaScript \<^verbatim>\<open>number\<close> is modelled as a \<^typ>\<open>real\<close>: arithmetic is exact, and
  the rounding of IEEE doubles, \<^verbatim>\<open>NaN\<close> and the infinities are outside the model.
  A field of type \<^verbatim>\<open>number | null\<close> is a \<^typ>\<open>real option\<close>, \<^term>\<open>None\<close> being \<^verbatim>\<open>null\<close>.

  An object used as a dictionary is the list of its entries in enumeration order.
  \<^verbatim>\<open>for (var key in ob)\<close> visits \<^term>\<open>map fst ob\<close>; \<^verbatim>\<open>ob[key]\<close> is
  \<^term>\<open>map_of ob key\<close>, \<^term>\<open>None\<close> being \<^verbatim>\<open>undefined\<close>. An object holds each key
  once, which is \<^term>\<open>distinct (map fst ob)\<close>.
\<close>

type_synonym 'v obj = "(string \<times> 'v) list"

section \<open>mathf.childProgress\<close>

text \<open>
  Modelled from the spec: \<^verbatim>\<open>mathf.childProgress\<close> (\<^verbatim>\<open>src/mathf/mathf.ts\<close> is not among the
  sources). The spec gives
  \<^verbatim>\<open>childProgress = clamp01((progress - startProgress) / (endProgress - startProgress))\<close>
  when \<^verbatim>\<open>endProgress != startProgress\<close>, else \<^verbatim>\<open>0\<close>.
\<close>

definition clamp01 :: "real \<Rightarrow> real" where
  "clamp01 x = min 1 (max 0 x)"

definition childProgress :: "real \<Rightarrow> real \<Rightarrow> real \<Rightarrow> real" where
  "childProgress progress start end' =
     (if end' \<noteq> start then clamp01 ((progress - start) / (end' - start)) else 0)"

section \<open>CssVarInterpolate (src/interpolate/css-var-interpolate.ts)\<close>

text \<open>
  The class calls two collaborators whose code is not among the sources:
  \<^verbatim>\<open>MultiInterpolate\<close> (its constructor and \<^verbatim>\<open>calculate\<close>) and \<^verbatim>\<open>dom.setCssVariable\<close>.
  \<^verbatim>\<open>new MultiInterpolate(config)\<close> is a parameter of the model: a function from the
  configuration to the function \<^verbatim>\<open>calculate\<close> of the object built. Each call of a
  collaborator is recorded, in order, as a value of type \<open>call\<close>; both collaborators are
  taken to return normally.

  The element is an \<^typ>\<open>'e option\<close>: \<^term>\<open>None\<close> is \<^verbatim>\<open>null\<close>, what
  \<^verbatim>\<open>document.getElementById\<close> or \<^verbatim>\<open>querySelector\<close> give when nothing matches.
\<close>

datatype ('e, 'v) call =
    Calculate real
  | SetCssVariable "'e option" string "'v option"

record ('e, 'c, 'v) CssVarInterpolate =
  element :: "'e option"
  config :: 'c
  mainProgress :: "real option"
  currentValues :: "'v obj"
  multiInterpolate :: "real \<Rightarrow> 'v obj"
  startProgress :: real
  endProgress :: real

definition constructor ::
  "('c \<Rightarrow> real \<Rightarrow> 'v obj) \<Rightarrow> 'e option \<Rightarrow> 'c \<Rightarrow> ('e, 'c, 'v) CssVarInterpolate" where
  "constructor MultiInterpolate el cfg =
     \<lparr> element = el,
       config = cfg,
       mainProgress = None,
       currentValues = [],
       multiInterpolate = MultiInterpolate cfg,
       startProgress = 0,
       endProgress = 1 \<rparr>"

text \<open>
  \<^verbatim>\<open>update(progress)\<close>. The guard \<^verbatim>\<open>progress == this.mainProgress\<close> compares a number
  with a \<^verbatim>\<open>number | null\<close>: no number is loosely equal to \<^verbatim>\<open>null\<close>. The result is
  the binder after the call and the calls made, in order.
\<close>

definition update ::
  "real \<Rightarrow> ('e, 'c, 'v) CssVarInterpolate \<Rightarrow>
     ('e, 'c, 'v) CssVarInterpolate \<times> ('e, 'v) call list" where
  "update progress this =
     (if Some progress = mainProgress this then (this, [])
      else
        let child = childProgress progress (startProgress this) (endProgress this);
            this1 = this\<lparr>mainProgress := Some child\<rparr>;
            this2 = this1\<lparr>currentValues := multiInterpolate this1 child\<rparr>
        in (this2,
            Calculate child #
            map (\<lambda>key. SetCssVariable (element this2) key (map_of (currentValues this2) key))
                (map fst (currentValues this2))))"

definition setProgressRange ::
  "real \<Rightarrow> real \<Rightarrow> ('e, 'c, 'v) CssVarInterpolate \<Rightarrow> ('e, 'c, 'v) CssVarInterpolate" where
  "setProgressRange start end' this = this\<lparr>startProgress := start, endProgress := end'\<rparr>"

text \<open>A sequence of calls of the two methods on one binder, with the calls it makes.\<close>

datatype binder_op = Update real | SetProgressRange real real

fun step ::
  "binder_op \<Rightarrow> ('e, 'c, 'v) CssVarInterpolate \<Rightarrow>
     ('e, 'c, 'v) CssVarInterpolate \<times> ('e, 'v) call list" where
  "step (Update p) this = update p this"
| "step (SetProgressRange s e) this = (setProgressRange s e this, [])"

fun run_methods ::
  "binder_op list \<Rightarrow> ('e, 'c, 'v) CssVarInterpolate \<Rightarrow>
     ('e, 'c, 'v) CssVarInterpolate \<times> ('e, 'v) call list" where
  "run_methods [] this = (this, [])"
| "run_methods (m # ms) this =
     (case step m this of (this1, cs1) \<Rightarrow>
        (case run_methods ms this1 of (this2, cs2) \<Rightarrow> (this2, cs1 @ cs2)))"

text \<open>Observations of a list of calls.\<close>

fun calculate_args :: "('e, 'v) call list \<Rightarrow> real list" where
  "calculate_args [] = []"
| "calculate_args (Calculate c # cs) = c # calculate_args cs"
| "calculate_args (SetCssVariable el k v # cs) = calculate_args cs"

fun css_writes :: "('e, 'v) call list \<Rightarrow> ('e option \<times> string \<times> 'v option) list" where
  "css_writes [] = []"
| "css_writes (Calculate c # cs) = css_writes cs"
| "css_writes (SetCssVariable el k v # cs) = (el, k, v) # css_writes cs"

section \<open>DomWatcher.run (src/dom/dom-watcher.ts)\<close>

text \<open>
  A \<^verbatim>\<open>DomWatcherConfig\<close> is modelled with its three required fields and the optional
  \<^verbatim>\<open>id\<close>; \<^verbatim>\<open>run\<close> reads \<^verbatim>\<open>id\<close> and \<^verbatim>\<open>callback\<close> only, and the fields \<^verbatim>\<open>eventOptions\<close>,
  \<^verbatim>\<open>runWhen\<close>, \<^verbatim>\<open>listener\<close> and \<^verbatim>\<open>remover\<close> are left out. The optional \<^verbatim>\<open>id\<close> is a
  \<^typ>\<open>string option\<close>, \<^term>\<open>None\<close> being \<^verbatim>\<open>undefined\<close>. A callback is a function of the
  state \<open>'w\<close> of the program around the watcher: called without arguments, it gives
  the truthiness of the value it returns and the new state; it is taken to return
  normally. \<^verbatim>\<open>watcherConfigs\<close> holds the configs registered by \<^verbatim>\<open>add\<close>, in the order of
  their registration. The field \<^verbatim>\<open>element\<close> is named \<open>watched\<close> here and \<^verbatim>\<open>id\<close> is \<open>id'\<close>,
  the plain names being taken.
\<close>

record ('el, 'w) DomWatcherConfig =
  watched :: 'el
  on :: string
  callback :: "'w \<Rightarrow> bool \<times> 'w"
  id' :: "string option"

record ('el, 'w) DomWatcher =
  watcherConfigs :: "('el, 'w) DomWatcherConfig list"

text \<open>
  The filter of \<^verbatim>\<open>run\<close>, \<^verbatim>\<open>config.id && config.id == id\<close>: \<^verbatim>\<open>undefined\<close> and the empty
  string are falsy, every other string is truthy, and \<^verbatim>\<open>==\<close> on two strings is equality.
\<close>

definition truthy :: "string option \<Rightarrow> bool" where
  "truthy s = (case s of None \<Rightarrow> False | Some str \<Rightarrow> str \<noteq> [])"

definition id_matches :: "string \<Rightarrow> ('el, 'w) DomWatcherConfig \<Rightarrow> bool" where
  "id_matches ident cfg = (truthy (id' cfg) \<and> id' cfg = Some ident)"

text \<open>
  The body of the \<^verbatim>\<open>forEach\<close>, \<^verbatim>\<open>config.callback() && config.callback()\<close>. A config
  object is told from the others by its position in \<^verbatim>\<open>watcherConfigs\<close>; each invocation
  is recorded as that position with the truthiness returned.
\<close>

fun invoke_callback ::
  "nat \<times> ('el, 'w) DomWatcherConfig \<Rightarrow> 'w \<Rightarrow> 'w \<times> (nat \<times> bool) list" where
  "invoke_callback (i, cfg) w =
     (case callback cfg w of
        (r1, w1) \<Rightarrow>
          if r1 then (case callback cfg w1 of (r2, w2) \<Rightarrow> (w2, [(i, r1), (i, r2)]))
          else (w1, [(i, r1)]))"

fun forEach ::
  "(nat \<times> ('el, 'w) DomWatcherConfig) list \<Rightarrow> 'w \<Rightarrow> 'w \<times> (nat \<times> bool) list" where
  "forEach [] w = (w, [])"
| "forEach (x # xs) w =
     (case invoke_callback x w of (w1, tr1) \<Rightarrow>
        (case forEach xs w1 of (w2, tr2) \<Rightarrow> (w2, tr1 @ tr2)))"

definition run :: "string \<Rightarrow> ('el, 'w) DomWatcher \<Rightarrow> 'w \<Rightarrow> 'w \<times> (nat \<times> bool) list" where
  "run ident this w =
     (let configsToRun =
            filter (\<lambda>(i, cfg). id_matches ident cfg)
              (enumerate 0 (watcherConfigs this))
      in forEach configsToRun w)"

text \<open>The invocations of the config at position \<open>i\<close>, in order.\<close>

definition invocations_of :: "nat \<Rightarrow> (nat \<times> bool) list \<Rightarrow> (nat \<times> bool) list" where
  "invocations_of i tr = filter (\<lambda>(j, r). j = i) tr"

section \<open>FrameScheduler\<close>

text \<open>
  Modelled from the spec: the FrameScheduler (the class \<^verbatim>\<open>Raf\<close> of \<^verbatim>\<open>src/raf/raf.ts\<close>, which
  is not among the sources; \<^verbatim>\<open>scroll-smooth-render.ts\<close> only calls it). The spec gives it
  three callback queues (read, write, post-write), the states Idle and Running, and a
  read/write mode; \<^verbatim>\<open>read(cb)\<close>, \<^verbatim>\<open>write(cb)\<close> and \<^verbatim>\<open>postWrite(cb)\<close> (here \<open>raf_read\<close>,
  \<open>raf_write\<close>, \<open>raf_postWrite\<close>) enqueue \<^verbatim>\<open>cb\<close> for the next pump cycle, and each queued
  callback is single-shot. In read/write mode a pump
  executes the three queues in the order Read, Write, PostWrite, draining each before
  the next; otherwise it invokes one per-frame callback.

  A callback has a label, by which a trace names it, and a body: a function of the
  state \<open>'s\<close> of the program that gives the new state and the registrations the callback
  made while it ran. Callbacks are taken to return normally.
\<close>

datatype phase = Read | Write | PostWrite

datatype 's cb = Cb (label: nat) (body: "'s \<Rightarrow> 's \<times> (phase \<times> 's cb) list")

datatype run_state = Idle | Running

datatype event = Ran phase nat | Tick nat

record 's FrameScheduler =
  readQueue :: "'s cb list"
  writeQueue :: "'s cb list"
  postWriteQueue :: "'s cb list"
  readWriteMode :: bool
  state :: run_state
  frameCallback :: "'s cb"

definition raf_read :: "'s cb \<Rightarrow> 's FrameScheduler \<Rightarrow> 's FrameScheduler" where
  "raf_read c fs = fs\<lparr>readQueue := readQueue fs @ [c]\<rparr>"

definition raf_write :: "'s cb \<Rightarrow> 's FrameScheduler \<Rightarrow> 's FrameScheduler" where
  "raf_write c fs = fs\<lparr>writeQueue := writeQueue fs @ [c]\<rparr>"

definition raf_postWrite :: "'s cb \<Rightarrow> 's FrameScheduler \<Rightarrow> 's FrameScheduler" where
  "raf_postWrite c fs = fs\<lparr>postWriteQueue := postWriteQueue fs @ [c]\<rparr>"

fun register :: "phase \<times> 's cb \<Rightarrow> 's FrameScheduler \<Rightarrow> 's FrameScheduler" where
  "register (Read, c) fs = raf_read c fs"
| "register (Write, c) fs = raf_write c fs"
| "register (PostWrite, c) fs = raf_postWrite c fs"

definition start :: "'s FrameScheduler \<Rightarrow> 's FrameScheduler" where
  "start fs = (if state fs = Running then fs else fs\<lparr>state := Running\<rparr>)"

text \<open>
  \<^verbatim>\<open>stop()\<close>: Running to Idle; the callbacks still queued are discarded, not carried to
  a later \<^verbatim>\<open>start()\<close>.
\<close>

definition stop :: "'s FrameScheduler \<Rightarrow> 's FrameScheduler" where
  "stop fs = fs\<lparr>readQueue := [], writeQueue := [], postWriteQueue := [], state := Idle\<rparr>"

definition setReadWriteMode :: "bool \<Rightarrow> 's FrameScheduler \<Rightarrow> 's FrameScheduler" where
  "setReadWriteMode enabled fs = fs\<lparr>readWriteMode := enabled\<rparr>"

text \<open>
  Running the callbacks of one phase, in queue order. What a callback registers goes to
  the queues of the scheduler, which at that time hold the next cycle.
\<close>

fun runCallbacks ::
  "phase \<Rightarrow> 's cb list \<Rightarrow> 's FrameScheduler \<times> 's \<times> event list \<Rightarrow>
     's FrameScheduler \<times> 's \<times> event list" where
  "runCallbacks ph [] st = st"
| "runCallbacks ph (c # cs) (fs, s, tr) =
     (case body c s of
        (s1, regs) \<Rightarrow> runCallbacks ph cs (fold register regs fs, s1, tr @ [Ran ph (label c)]))"

text \<open>
  One pump cycle. Idle, no frame request is outstanding and nothing runs. In read/write
  mode the queued callbacks are taken off the three queues and run phase by phase.
\<close>

definition pump :: "'s FrameScheduler \<Rightarrow> 's \<Rightarrow> 's FrameScheduler \<times> 's \<times> event list" where
  "pump fs s =
     (if state fs = Idle then (fs, s, [])
      else if readWriteMode fs then
        runCallbacks PostWrite (postWriteQueue fs)
          (runCallbacks Write (writeQueue fs)
            (runCallbacks Read (readQueue fs)
              (fs\<lparr>readQueue := [], writeQueue := [], postWriteQueue := []\<rparr>, s, [])))
      else
        (case body (frameCallback fs) s of
           (s1, regs) \<Rightarrow> (fold register regs fs, s1, [Tick (label (frameCallback fs))])))"

text \<open>The callbacks registered for one phase, in registration order.\<close>

definition of_phase :: "phase \<Rightarrow> (phase \<times> 's cb) list \<Rightarrow> 's cb list" where
  "of_phase ph regs = map snd (filter (\<lambda>(p, c). p = ph) regs)"

text \<open>The rank of an event in the order Read, Write, PostWrite.\<close>

fun rank :: "event \<Rightarrow> nat" where
  "rank (Ran Read l) = 0"
| "rank (Ran Write l) = 1"
| "rank (Ran PostWrite l) = 2"
| "rank (Tick l) = 3"

section \<open>Interpolator\<close>

text \<open>
  Modelled from the spec: the Interpolator (\<^verbatim>\<open>src/interpolate/interpolate.ts\<close> and
  \<^verbatim>\<open>multi-interpolate.ts\<close> are not among the sources). A segment has an input range, an
  output range (two numbers, or two unit values: a magnitude with a unit) and an
  optional easing function. \<^verbatim>\<open>calculate(progress)\<close> takes the first segment, in list
  order, whose input range contains the progress, both bounds included and a reversed
  range read as \<open>min..max\<close>; if there is none, the segment with the boundary closest to
  the progress, the earliest on a tie. The local progress is
  \<open>t = (progress - from) / (to - from)\<close>, or \<open>0\<close> when \<open>from = to\<close>; the easing, if any, is
  applied to \<open>t\<close>; the value is \<open>from + t * (to - from)\<close> over the output range. Two unit
  values with different units are a configuration error, raised by the calculation.
  The spec does not say what an interpolator without segments returns: the model
  reports it as \<open>NoSegments\<close>.
\<close>

record range =
  range_from :: real
  range_to :: real

record unit_value =
  magnitude :: real
  unit_of :: string

datatype output_range = Numeric range | UnitTagged unit_value unit_value

record segment =
  inputRange :: range
  outputRange :: output_range
  easing :: "(real \<Rightarrow> real) option"

datatype interpolated = Number real | UnitString real string

datatype interpolate_error = ConfigurationError | NoSegments

definition contains_progress :: "segment \<Rightarrow> real \<Rightarrow> bool" where
  "contains_progress seg p =
     (min (range_from (inputRange seg)) (range_to (inputRange seg)) \<le> p \<and>
      p \<le> max (range_from (inputRange seg)) (range_to (inputRange seg)))"

definition boundary_distance :: "segment \<Rightarrow> real \<Rightarrow> real" where
  "boundary_distance seg p =
     min \<bar>p - range_from (inputRange seg)\<bar> \<bar>p - range_to (inputRange seg)\<bar>"

fun nearest :: "segment \<Rightarrow> segment list \<Rightarrow> real \<Rightarrow> segment" where
  "nearest best [] p = best"
| "nearest best (seg # segs) p =
     (if boundary_distance seg p < boundary_distance best p then nearest seg segs p
      else nearest best segs p)"

definition select_segment :: "segment list \<Rightarrow> real \<Rightarrow> segment option" where
  "select_segment segs p =
     (case find (\<lambda>seg. contains_progress seg p) segs of
        Some seg \<Rightarrow> Some seg
      | None \<Rightarrow> (case segs of [] \<Rightarrow> None | seg # rest \<Rightarrow> Some (nearest seg rest p)))"

definition local_progress :: "segment \<Rightarrow> real \<Rightarrow> real" where
  "local_progress seg p =
     (if range_from (inputRange seg) = range_to (inputRange seg) then 0
      else (p - range_from (inputRange seg)) /
           (range_to (inputRange seg) - range_from (inputRange seg)))"

definition eased :: "segment \<Rightarrow> real \<Rightarrow> real" where
  "eased seg t = (case easing seg of None \<Rightarrow> t | Some f \<Rightarrow> f t)"

definition lerp :: "real \<Rightarrow> real \<Rightarrow> real \<Rightarrow> real" where
  "lerp a b t = a + t * (b - a)"

definition calculate :: "segment list \<Rightarrow> real \<Rightarrow> interpolate_error + interpolated" where
  "calculate segs p =
     (case select_segment segs p of
        None \<Rightarrow> Inl NoSegments
      | Some seg \<Rightarrow>
          (let t = eased seg (local_progress seg p) in
           case outputRange seg of
             Numeric r \<Rightarrow> Inr (Number (lerp (range_from r) (range_to r) t))
           | UnitTagged a b \<Rightarrow>
               if unit_of a = unit_of b
               then Inr (UnitString (lerp (magnitude a) (magnitude b) t) (unit_of a))
               else Inl ConfigurationError))"


section \<open>Theorems about CssVarInterpolate\<close>

lemma calculate_args_writes:
  "calculate_args (map (\<lambda>x. SetCssVariable (a x) (b x) (c x)) xs) = []"
  by (induction xs) auto

lemma css_writes_map:
  "css_writes (map (\<lambda>x. SetCssVariable (a x) (b x) (c x)) xs) =
     map (\<lambda>x. (a x, b x, c x)) xs"
  by (induction xs) auto


lemmas binder_defs =
  update_def Let_def childProgress_def clamp01_def setProgressRange_def constructor_def

text \<open>
  What \<^verbatim>\<open>update\<close> stores and compares. An accepted \<^verbatim>\<open>update(p)\<close> assigns the child
  progress, not \<^verbatim>\<open>p\<close>, to \<^verbatim>\<open>mainProgress\<close>; the next call compares its raw argument
  with that stored child progress.
\<close>

lemma update_accepted_stores_child:
  "Some p \<noteq> mainProgress this \<Longrightarrow>
     mainProgress (fst (update p this)) =
       Some (childProgress p (startProgress this) (endProgress this))"
  by (simp add: update_def Let_def)

lemma update_culled_iff:
  "snd (update p this) = [] \<longleftrightarrow> Some p = mainProgress this"
  by (simp add: update_def Let_def)

lemma update_culled_unchanged:
  "Some p = mainProgress this \<Longrightarrow> update p this = (this, [])"
  by (simp add: update_def)

text \<open>
  With the default range and a progress within \<open>[0, 1]\<close> the child progress is the
  progress itself, so there a repeated value is culled.
\<close>

lemma childProgress_default_range:
  "0 \<le> p \<Longrightarrow> p \<le> 1 \<Longrightarrow> childProgress p 0 1 = p"
  by (simp add: childProgress_def clamp01_def)

lemma repeated_update_default_range_culled:
  assumes "0 \<le> p" and "p \<le> 1"
  shows "snd (update p (fst (update p (constructor mk el cfg)))) = []"
  using assms by (simp add: update_def Let_def constructor_def childProgress_default_range)

text \<open>
  C1 (the code departs from the claim). The claim: an \<^verbatim>\<open>update(p)\<close> whose \<^verbatim>\<open>p\<close> equals
  the progress accepted by the most recent non-culled update returns at once, with no
  interpolation and no CSS write. The code at \<^verbatim>\<open>setProgressRange(0, 0.5); update(0.25);
  update(0.25)\<close>: the first update stores the child progress \<open>0.5\<close>, the second compares
  \<open>0.25\<close> with \<open>0.5\<close>, is not culled, and calculates and writes a second time.
\<close>

theorem repeated_update_writes_twice:
  "snd (run_methods [SetProgressRange 0 (1/2), Update (1/4), Update (1/4)]
          (constructor (\<lambda>cfg p. [(''--x'', 500 * p)]) (Some ''ball'') ())) =
     [Calculate (1/2), SetCssVariable (Some ''ball'') ''--x'' (Some 250),
      Calculate (1/2), SetCssVariable (Some ''ball'') ''--x'' (Some 250)]"
  by (simp add: binder_defs)

text \<open>
  The same comparison culls a progress that did change: after \<^verbatim>\<open>update(0.25)\<close> on the
  range \<open>(0, 0.5)\<close>, \<^verbatim>\<open>update(0.5)\<close> is dropped.
\<close>

lemma changed_progress_culled:
  "snd (run_methods [SetProgressRange 0 (1/2), Update (1/4), Update (1/2)]
          (constructor (\<lambda>cfg p. [(''--x'', 500 * p)]) (Some ''ball'') ())) =
     [Calculate (1/2), SetCssVariable (Some ''ball'') ''--x'' (Some 250)]"
  by (simp add: binder_defs)

text \<open>
  C2 (the code departs from the claim). The claim: after every accepted \<^verbatim>\<open>update(p)\<close>
  the stored last-accepted progress is the raw argument \<^verbatim>\<open>p\<close>. The code stores the
  child progress: \<open>0.5\<close> after \<^verbatim>\<open>setProgressRange(0, 0.5); update(0.25)\<close>, and \<open>1\<close>
  after \<^verbatim>\<open>update(2)\<close> on the default range.
\<close>

theorem stored_progress_is_child_progress:
  "mainProgress (fst (run_methods [SetProgressRange 0 (1/2), Update (1/4)]
      (constructor (\<lambda>cfg p. [(''--x'', 500 * p)]) (Some ''ball'') ()))) = Some (1/2) \<and>
   mainProgress (fst (update 2
      (constructor (\<lambda>cfg p. [(''--x'', 500 * p)]) (Some ''ball'') ()))) = Some 1"
  by (simp add: binder_defs)

text \<open>
  C3. On every accepted \<^verbatim>\<open>update(p)\<close>, \<^verbatim>\<open>calculate\<close> is called once, with
  \<open>clamp01 ((p - startProgress) / (endProgress - startProgress))\<close> when the two bounds
  differ and with \<open>0\<close> otherwise. After \<^verbatim>\<open>setProgressRange(0.2, 0.6)\<close> on a new binder,
  \<^verbatim>\<open>update(0.2)\<close> passes \<open>0\<close>, \<^verbatim>\<open>update(0.6)\<close> passes \<open>1\<close> and \<^verbatim>\<open>update(0.4)\<close> passes \<open>0.5\<close>.
\<close>

theorem update_calculates_childProgress:
  "(Some p \<noteq> mainProgress this \<longrightarrow>
      calculate_args (snd (update p this)) =
        [if endProgress this \<noteq> startProgress this
         then clamp01 ((p - startProgress this) / (endProgress this - startProgress this))
         else 0]) \<and>
   calculate_args (snd (update (2/10)
      (setProgressRange (2/10) (6/10) (constructor mk el cfg)))) = [0] \<and>
   calculate_args (snd (update (6/10)
      (setProgressRange (2/10) (6/10) (constructor mk el cfg)))) = [1] \<and>
   calculate_args (snd (update (4/10)
      (setProgressRange (2/10) (6/10) (constructor mk el cfg)))) = [1/2]"
  by (simp add: binder_defs comp_def calculate_args_writes)

theorem update_calculates_childProgress_witness:
  "Some (3/4) \<noteq> mainProgress (setProgressRange (1/2) 1
      (constructor (\<lambda>cfg p. [(''--x'', 500 * p)]) (Some ''ball'') ())) \<and>
   calculate_args (snd (update (3/4) (setProgressRange (1/2) 1
      (constructor (\<lambda>cfg p. [(''--x'', 500 * p)]) (Some ''ball'') ())))) = [1/2]"
  using update_calculates_childProgress
    [where p = "3/4"
       and this = "setProgressRange (1/2) 1
         (constructor (\<lambda>cfg p. [(''--x'', 500 * p)]) (Some ''ball'') ())"
       and mk = "\<lambda>cfg p. [(''--x'', 500 * p)]" and el = "Some ''ball''" and cfg = "()"]
  by (simp add: setProgressRange_def constructor_def clamp01_def)



text \<open>
  C7. \<^verbatim>\<open>setProgressRange(start, end)\<close> makes no call to \<^verbatim>\<open>calculate\<close> or to the CSS
  sink and changes the fields \<^verbatim>\<open>startProgress\<close> and \<^verbatim>\<open>endProgress\<close> only; the stored
  progress and values stay. The new range is used by the next \<^verbatim>\<open>update\<close>.
\<close>

theorem setProgressRange_changes_range_only:
  "step (SetProgressRange s e) this = (setProgressRange s e this, []) \<and>
   setProgressRange s e this = this\<lparr>startProgress := s, endProgress := e\<rparr> \<and>
   mainProgress (setProgressRange s e this) = mainProgress this \<and>
   currentValues (setProgressRange s e this) = currentValues this \<and>
   element (setProgressRange s e this) = element this \<and>
   startProgress (setProgressRange s e this) = s \<and>
   endProgress (setProgressRange s e this) = e \<and>
   calculate_args (snd (update p (setProgressRange s e this))) =
     (if Some p = mainProgress this then [] else [childProgress p s e])"
  by (simp add: setProgressRange_def update_def Let_def comp_def calculate_args_writes)

lemma setProgressRange_calls_keep_mainProgress:
  "mainProgress (fst (run_methods (map (\<lambda>(s, e). SetProgressRange s e) rs) this)) =
     mainProgress this"
  by (induction rs arbitrary: this) (auto simp: setProgressRange_def split: prod.splits)

text \<open>
  C8. A newly constructed binder has \<^verbatim>\<open>mainProgress = null\<close>, and its first
  \<^verbatim>\<open>update(p)\<close>, for every number \<^verbatim>\<open>p\<close> (\<open>0\<close> included), is not culled: it stores the
  child progress, calls \<^verbatim>\<open>calculate\<close> and writes every key of the result. The same
  holds when calls of \<^verbatim>\<open>setProgressRange\<close> come between the construction and the first
  \<^verbatim>\<open>update\<close>.
\<close>

theorem first_update_never_culled:
  "mainProgress (constructor mk el cfg) = None \<and>
   update p (constructor mk el cfg) =
     ((constructor mk el cfg)\<lparr>mainProgress := Some (childProgress p 0 1),
                               currentValues := mk cfg (childProgress p 0 1)\<rparr>,
      Calculate (childProgress p 0 1) #
      map (\<lambda>key. SetCssVariable el key (map_of (mk cfg (childProgress p 0 1)) key))
          (map fst (mk cfg (childProgress p 0 1)))) \<and>
   snd (update p (constructor mk el cfg)) \<noteq> [] \<and>
   snd (update 0 (constructor mk el cfg)) \<noteq> [] \<and>
   snd (update p (fst (run_methods (map (\<lambda>(s, e). SetProgressRange s e) rs)
                         (constructor mk el cfg)))) \<noteq> []"
proof -
  have fresh: "mainProgress (constructor mk el cfg) = None"
    by (simp add: constructor_def)
  have later: "snd (update p (fst (run_methods (map (\<lambda>(s, e). SetProgressRange s e) rs)
                         (constructor mk el cfg)))) \<noteq> []"
    by (simp add: update_culled_iff setProgressRange_calls_keep_mainProgress fresh)
  show ?thesis
    using later by (simp add: constructor_def update_def Let_def)
qed

text \<open>
  C9, as the claim states it, fails on the code: the constructor takes an element
  reference, not a selector, and does not look at it. Constructed on \<^verbatim>\<open>null\<close>, it
  returns a binder that holds \<^verbatim>\<open>null\<close>, and the missing element reaches the CSS sink
  in the first \<^verbatim>\<open>update\<close>.
\<close>

theorem constructor_accepts_missing_element:
  "constructor (\<lambda>cfg p. [(''--x'', 500 * p)]) (None :: string option) () =
     \<lparr> element = None, config = (), mainProgress = None, currentValues = [],
       multiInterpolate = (\<lambda>p. [(''--x'', 500 * p)]),
       startProgress = 0, endProgress = 1 \<rparr> \<and>
   snd (update (1/2) (constructor (\<lambda>cfg p. [(''--x'', 500 * p)]) (None :: string option) ())) =
     [Calculate (1/2), SetCssVariable None ''--x'' (Some 250)]"
  by (simp add: binder_defs)

text \<open>
  C9, amended. The constructor checks nothing and cannot fail on its element: for
  every element reference, \<^verbatim>\<open>null\<close> included, it returns a binder that stores the
  reference as given, with \<^verbatim>\<open>mainProgress = null\<close> and the range \<open>(0, 1)\<close>, and makes no
  call. The reference is first used by the first \<^verbatim>\<open>update\<close>, which addresses every
  CSS write to it.
\<close>

theorem constructor_stores_element_unchecked:
  "element (constructor mk el cfg) = el \<and>
   mainProgress (constructor mk el cfg) = None \<and>
   currentValues (constructor mk el cfg) = [] \<and>
   startProgress (constructor mk el cfg) = 0 \<and>
   endProgress (constructor mk el cfg) = 1 \<and>
   multiInterpolate (constructor mk el cfg) = mk cfg \<and>
   map fst (css_writes (snd (update p (constructor mk el cfg)))) =
     map (\<lambda>kv. el) (mk cfg (childProgress p 0 1))"
  by (simp add: constructor_def update_def Let_def comp_def css_writes_map)

section \<open>Theorems about DomWatcher.run\<close>

lemma invocations_of_append:
  "invocations_of i (xs @ ys) = invocations_of i xs @ invocations_of i ys"
  by (simp add: invocations_of_def)

lemma invocations_of_invoke_other:
  "j \<noteq> i \<Longrightarrow> invocations_of i (snd (invoke_callback (j, c) w)) = []"
  by (auto simp: invocations_of_def split: prod.splits)

lemma invocations_of_invoke_same:
  "invocations_of i (snd (invoke_callback (i, c) w)) =
     (if fst (callback c w) then [(i, True), (i, fst (callback c (snd (callback c w))))]
      else [(i, False)])"
  by (auto simp: invocations_of_def split: prod.splits)

lemma forEach_Cons_snd:
  "snd (forEach (x # xs) w) =
     snd (invoke_callback x w) @ snd (forEach xs (fst (invoke_callback x w)))"
  by (simp split: prod.splits del: invoke_callback.simps)

lemma invocations_of_forEach_absent:
  "i \<notin> fst ` set xs \<Longrightarrow> invocations_of i (snd (forEach xs w)) = []"
proof (induction xs arbitrary: w)
  case Nil
  then show ?case by (simp add: invocations_of_def)
next
  case (Cons x xs)
  obtain j c where x: "x = (j, c)" by (cases x)
  from Cons.prems x have ji: "j \<noteq> i" and rest: "i \<notin> fst ` set xs" by auto
  have "invocations_of i (snd (invoke_callback x w)) = []"
    unfolding x by (rule invocations_of_invoke_other [OF ji])
  moreover have "invocations_of i (snd (forEach xs (fst (invoke_callback x w)))) = []"
    by (rule Cons.IH [OF rest])
  ultimately show ?case
    by (simp only: forEach_Cons_snd invocations_of_append append_Nil)
qed

text \<open>
  Where the positions are distinct, the invocations of a listed config are those of
  the one evaluation of the \<^verbatim>\<open>forEach\<close> body on it, in the state \<open>w'\<close> reached then.
\<close>

lemma invocations_of_forEach_present:
  "distinct (map fst xs) \<Longrightarrow> (i, c) \<in> set xs \<Longrightarrow>
     \<exists>w'. invocations_of i (snd (forEach xs w)) =
            invocations_of i (snd (invoke_callback (i, c) w'))"
proof (induction xs arbitrary: w)
  case Nil
  then show ?case by simp
next
  case (Cons x xs)
  show ?case
  proof (cases "x = (i, c)")
    case True
    with Cons.prems have "i \<notin> fst ` set xs" by auto
    then have "invocations_of i (snd (forEach xs (fst (invoke_callback x w)))) = []"
      by (rule invocations_of_forEach_absent)
    then have "invocations_of i (snd (forEach (x # xs) w)) =
        invocations_of i (snd (invoke_callback (i, c) w))"
      by (simp only: forEach_Cons_snd invocations_of_append append_Nil2 True)
    then show ?thesis by blast
  next
    case False
    with Cons.prems have mem: "(i, c) \<in> set xs" and d: "distinct (map fst xs)" by auto
    from Cons.prems mem have "fst x \<noteq> i" by (auto simp: rev_image_eqI)
    then have "invocations_of i (snd (invoke_callback x w)) = []"
      using invocations_of_invoke_other [of "fst x" i "snd x" w] by simp
    moreover obtain w' where
      "invocations_of i (snd (forEach xs (fst (invoke_callback x w)))) =
         invocations_of i (snd (invoke_callback (i, c) w'))"
      using Cons.IH [OF d mem] by blast
    ultimately have "invocations_of i (snd (forEach (x # xs) w)) =
        invocations_of i (snd (invoke_callback (i, c) w'))"
      by (simp only: forEach_Cons_snd invocations_of_append append_Nil)
    then show ?thesis by blast
  qed
qed

lemma distinct_fst_filter_enumerate:
  "distinct (map fst (filter P (enumerate n xs)))"
  by (rule distinct_map_filter) simp

lemma id_matches_iff:
  "id_matches ident c \<longleftrightarrow> id' c = Some ident \<and> ident \<noteq> []"
  by (auto simp: id_matches_def truthy_def)

text \<open>
  C10, as the claim states it, fails for the empty string: a config registered with
  \<^verbatim>\<open>id: ''\<close> has an id equal to the argument of \<^verbatim>\<open>run('')\<close>, yet the guard
  \<^verbatim>\<open>config.id && ...\<close> drops it and its callback is not invoked.
\<close>

theorem run_empty_id_not_invoked:
  "run ''''
     \<lparr>watcherConfigs = [\<lparr>watched = ''window'', on = ''click'', callback = (\<lambda>n. (True, Suc n)), id' = Some ''''\<rparr>]\<rparr>
     (0::nat) = (0, [])"
  by (simp add: run_def Let_def id_matches_def truthy_def enumerate_eq_zip)

text \<open>
  C10, amended. On \<^verbatim>\<open>run(id)\<close>, each registered config whose id is a non-empty string
  equal to the argument has its callback invoked; the callback is invoked a second
  time, within the same call of \<^verbatim>\<open>run\<close>, exactly when its first invocation returns a
  truthy value. A config whose id is different, absent or empty is not invoked.
\<close>

theorem run_invocations:
  "if i < length (watcherConfigs this) \<and>
      id' (watcherConfigs this ! i) = Some ident \<and> ident \<noteq> []
   then \<exists>w'. invocations_of i (snd (run ident this w)) =
          (if fst (callback (watcherConfigs this ! i) w')
           then [(i, True),
                 (i, fst (callback (watcherConfigs this ! i)
                            (snd (callback (watcherConfigs this ! i) w'))))]
           else [(i, False)])
   else invocations_of i (snd (run ident this w)) = []"
proof (cases "i < length (watcherConfigs this) \<and>
      id' (watcherConfigs this ! i) = Some ident \<and> ident \<noteq> []")
  case True
  let ?xs = "filter (\<lambda>(i, cfg). id_matches ident cfg) (enumerate 0 (watcherConfigs this))"
  from True have mem: "(i, watcherConfigs this ! i) \<in> set ?xs"
    by (simp add: in_set_enumerate_eq id_matches_iff)
  obtain w' where
    "invocations_of i (snd (forEach ?xs w)) =
       invocations_of i (snd (invoke_callback (i, watcherConfigs this ! i) w'))"
    using invocations_of_forEach_present [OF distinct_fst_filter_enumerate mem, of w]
    by (rule exE)
  then have "invocations_of i (snd (run ident this w)) =
      (if fst (callback (watcherConfigs this ! i) w')
       then [(i, True),
             (i, fst (callback (watcherConfigs this ! i)
                        (snd (callback (watcherConfigs this ! i) w'))))]
       else [(i, False)])"
    by (simp only: run_def Let_def invocations_of_invoke_same)
  then have ex: "\<exists>w'. invocations_of i (snd (run ident this w)) =
      (if fst (callback (watcherConfigs this ! i) w')
       then [(i, True),
             (i, fst (callback (watcherConfigs this ! i)
                        (snd (callback (watcherConfigs this ! i) w'))))]
       else [(i, False)])"
    by (rule exI)
  show ?thesis by (subst if_P [OF True]) (rule ex)
next
  case False
  let ?xs = "filter (\<lambda>(i, cfg). id_matches ident cfg) (enumerate 0 (watcherConfigs this))"
  from False have "i \<notin> fst ` set ?xs"
    by (auto simp: in_set_enumerate_eq id_matches_iff)
  then have "invocations_of i (snd (forEach ?xs w)) = []"
    by (rule invocations_of_forEach_absent)
  then have none: "invocations_of i (snd (run ident this w)) = []"
    by (simp only: run_def Let_def)
  show ?thesis by (subst if_not_P [OF False]) (rule none)
qed

text \<open>
  An evaluation: of four configs, the two with id \<^verbatim>\<open>abc\<close> are run by \<^verbatim>\<open>run('abc')\<close>, the
  first twice (its callback returns a truthy value), the second once.
\<close>

lemma run_example:
  "run ''abc''
     \<lparr>watcherConfigs =
        [\<lparr>watched = ''window'', on = ''click'', callback = (\<lambda>n. (True, n + 1)), id' = Some ''abc''\<rparr>,
         \<lparr>watched = ''window'', on = ''scroll'', callback = (\<lambda>n. (False, n + 10)), id' = Some ''abc''\<rparr>,
         \<lparr>watched = ''window'', on = ''click'', callback = (\<lambda>n. (True, n + 100)), id' = None\<rparr>,
         \<lparr>watched = ''window'', on = ''click'', callback = (\<lambda>n. (True, n + 1000)), id' = Some ''xyz''\<rparr>]\<rparr>
     (0::nat) = (12, [(0, True), (0, True), (1, False)])"
  by (simp add: run_def Let_def id_matches_def truthy_def enumerate_eq_zip upt_rec)

theorem run_invocations_witness:
  "invocations_of 0 (snd (run ''abc''
     \<lparr>watcherConfigs =
        [\<lparr>watched = ''window'', on = ''click'', callback = (\<lambda>n. (True, n + 1)), id' = Some ''abc''\<rparr>,
         \<lparr>watched = ''window'', on = ''scroll'', callback = (\<lambda>n. (False, n + 10)), id' = Some ''abc''\<rparr>,
         \<lparr>watched = ''window'', on = ''click'', callback = (\<lambda>n. (True, n + 100)), id' = None\<rparr>]\<rparr>
     (0::nat))) = [(0, True), (0, True)] \<and>
   invocations_of 2 (snd (run ''abc''
     \<lparr>watcherConfigs =
        [\<lparr>watched = ''window'', on = ''click'', callback = (\<lambda>n. (True, n + 1)), id' = Some ''abc''\<rparr>,
         \<lparr>watched = ''window'', on = ''scroll'', callback = (\<lambda>n. (False, n + 10)), id' = Some ''abc''\<rparr>,
         \<lparr>watched = ''window'', on = ''click'', callback = (\<lambda>n. (True, n + 100)), id' = None\<rparr>]\<rparr>
     (0::nat))) = []"
  using
    run_invocations [of 0 "\<lparr>watcherConfigs =
        [\<lparr>watched = ''window'', on = ''click'', callback = (\<lambda>n. (True, n + 1)), id' = Some ''abc''\<rparr>,
         \<lparr>watched = ''window'', on = ''scroll'', callback = (\<lambda>n. (False, n + 10)), id' = Some ''abc''\<rparr>,
         \<lparr>watched = ''window'', on = ''click'', callback = (\<lambda>n. (True, n + 100)), id' = None\<rparr>]\<rparr>" "''abc''" "0::nat"]
    run_invocations [of 2 "\<lparr>watcherConfigs =
        [\<lparr>watched = ''window'', on = ''click'', callback = (\<lambda>n. (True, n + 1)), id' = Some ''abc''\<rparr>,
         \<lparr>watched = ''window'', on = ''scroll'', callback = (\<lambda>n. (False, n + 10)), id' = Some ''abc''\<rparr>,
         \<lparr>watched = ''window'', on = ''click'', callback = (\<lambda>n. (True, n + 100)), id' = None\<rparr>]\<rparr>" "''abc''" "0::nat"]
  by simp

section \<open>Theorems about the FrameScheduler\<close>

lemma runCallbacks_trace:
  "snd (snd (runCallbacks ph cs (fs, s, tr))) = tr @ map (\<lambda>c. Ran ph (label c)) cs"
proof (induction cs arbitrary: fs s tr)
  case Nil
  show ?case by simp
next
  case (Cons c cs)
  obtain s1 regs where b: "body c s = (s1, regs)" by (cases "body c s")
  show ?case by (simp add: b Cons.IH)
qed

lemma runCallbacks_state:
  "fst (snd (runCallbacks ph cs (fs, s, tr))) = fold (\<lambda>c s. fst (body c s)) cs s"
proof (induction cs arbitrary: fs s tr)
  case Nil
  show ?case by simp
next
  case (Cons c cs)
  obtain s1 regs where b: "body c s = (s1, regs)" by (cases "body c s")
  show ?case by (simp add: b Cons.IH)
qed

lemma register_fields:
  "readWriteMode (register (p, c) fs) = readWriteMode fs \<and>
   state (register (p, c) fs) = state fs"
  by (cases p) (simp_all add: raf_read_def raf_write_def raf_postWrite_def)

lemma register_queues:
  "readQueue (register (p, c) fs) = readQueue fs @ of_phase Read [(p, c)] \<and>
   writeQueue (register (p, c) fs) = writeQueue fs @ of_phase Write [(p, c)] \<and>
   postWriteQueue (register (p, c) fs) = postWriteQueue fs @ of_phase PostWrite [(p, c)]"
  by (cases p) (simp_all add: raf_read_def raf_write_def raf_postWrite_def of_phase_def)

lemma of_phase_Cons:
  "of_phase ph (r # regs) = of_phase ph [r] @ of_phase ph regs"
  by (simp add: of_phase_def)

lemma fold_register_fields:
  "readWriteMode (fold register regs fs) = readWriteMode fs \<and>
   state (fold register regs fs) = state fs"
proof (induction regs arbitrary: fs)
  case Nil
  show ?case by simp
next
  case (Cons r regs)
  obtain p c where r: "r = (p, c)" by (cases r)
  show ?case
    unfolding r fold_Cons comp_def
    using Cons.IH [of "register (p, c) fs"] register_fields [of p c fs]
    by simp
qed

lemma fold_register_queues:
  "readQueue (fold register regs fs) = readQueue fs @ of_phase Read regs \<and>
   writeQueue (fold register regs fs) = writeQueue fs @ of_phase Write regs \<and>
   postWriteQueue (fold register regs fs) = postWriteQueue fs @ of_phase PostWrite regs"
proof (induction regs arbitrary: fs)
  case Nil
  show ?case by (simp add: of_phase_def)
next
  case (Cons r regs)
  obtain p c where r: "r = (p, c)" by (cases r)
  have step: "fold register (r # regs) fs = fold register regs (register (p, c) fs)"
    by (simp add: r)
  show ?case
    unfolding step
    using Cons.IH [of "register (p, c) fs"] register_queues [of p c fs]
      of_phase_Cons [of Read r regs] of_phase_Cons [of Write r regs]
      of_phase_Cons [of PostWrite r regs]
    by (simp only: r append_assoc)
qed

lemma pump_result:
  assumes "state fs = Running" and "readWriteMode fs"
  shows "snd (snd (pump fs s)) =
           map (\<lambda>c. Ran Read (label c)) (readQueue fs) @
           map (\<lambda>c. Ran Write (label c)) (writeQueue fs) @
           map (\<lambda>c. Ran PostWrite (label c)) (postWriteQueue fs) \<and>
         fst (snd (pump fs s)) =
           fold (\<lambda>c s. fst (body c s)) (readQueue fs @ writeQueue fs @ postWriteQueue fs) s"
proof -
  let ?fs0 = "fs\<lparr>readQueue := [], writeQueue := [], postWriteQueue := []\<rparr>"
  obtain fs1 s1 tr1 where r1: "runCallbacks Read (readQueue fs) (?fs0, s, []) = (fs1, s1, tr1)"
    by (cases "runCallbacks Read (readQueue fs) (?fs0, s, [])") auto
  obtain fs2 s2 tr2 where r2: "runCallbacks Write (writeQueue fs) (fs1, s1, tr1) = (fs2, s2, tr2)"
    by (cases "runCallbacks Write (writeQueue fs) (fs1, s1, tr1)") auto
  have t1: "tr1 = map (\<lambda>c. Ran Read (label c)) (readQueue fs)"
    using runCallbacks_trace [of Read "readQueue fs" ?fs0 s "[]"] by (simp only: r1 snd_conv append_Nil)
  have t2: "tr2 = tr1 @ map (\<lambda>c. Ran Write (label c)) (writeQueue fs)"
    using runCallbacks_trace [of Write "writeQueue fs" fs1 s1 tr1] by (simp only: r2 snd_conv)
  have u1: "s1 = fold (\<lambda>c s. fst (body c s)) (readQueue fs) s"
    using runCallbacks_state [of Read "readQueue fs" ?fs0 s "[]"] by (simp only: r1 snd_conv fst_conv)
  have u2: "s2 = fold (\<lambda>c s. fst (body c s)) (writeQueue fs) s1"
    using runCallbacks_state [of Write "writeQueue fs" fs1 s1 tr1] by (simp only: r2 snd_conv fst_conv)
  have p: "pump fs s = runCallbacks PostWrite (postWriteQueue fs) (fs2, s2, tr2)"
    using assms by (simp add: pump_def r1 r2)
  have "snd (snd (pump fs s)) = tr2 @ map (\<lambda>c. Ran PostWrite (label c)) (postWriteQueue fs)"
    unfolding p by (rule runCallbacks_trace)
  moreover have "fst (snd (pump fs s)) = fold (\<lambda>c s. fst (body c s)) (postWriteQueue fs) s2"
    unfolding p by (rule runCallbacks_state)
  ultimately show ?thesis by (simp add: t1 t2 u1 u2)
qed

lemma sorted_phases:
  "sorted (map rank (map (\<lambda>c. Ran Read (label c)) xs @
                     map (\<lambda>c. Ran Write (label c)) ys @
                     map (\<lambda>c. Ran PostWrite (label c)) zs))"
  by (simp add: sorted_append comp_def map_replicate_const)

text \<open>
  C4. In read/write mode a pump cycle of a running scheduler runs the callbacks
  registered for the read phase, then those for the write phase, then those for the
  post-write phase, each phase in registration order, whatever the order in which the
  three kinds were registered; no read runs after a write or a post-write, and the
  state the program reaches is the one of running the callbacks in that order.
\<close>

theorem pump_read_write_order:
  assumes "state fs = Running" and "readWriteMode fs"
  shows "snd (snd (pump (fold register regs fs) s)) =
           map (\<lambda>c. Ran Read (label c)) (readQueue fs @ of_phase Read regs) @
           map (\<lambda>c. Ran Write (label c)) (writeQueue fs @ of_phase Write regs) @
           map (\<lambda>c. Ran PostWrite (label c)) (postWriteQueue fs @ of_phase PostWrite regs) \<and>
         sorted (map rank (snd (snd (pump (fold register regs fs) s)))) \<and>
         fst (snd (pump (fold register regs fs) s)) =
           fold (\<lambda>c s. fst (body c s))
             ((readQueue fs @ of_phase Read regs) @
              (writeQueue fs @ of_phase Write regs) @
              (postWriteQueue fs @ of_phase PostWrite regs)) s"
proof -
  let ?fs = "fold register regs fs"
  have run: "state ?fs = Running" and mode: "readWriteMode ?fs"
    using assms fold_register_fields [of regs fs] by simp_all
  have q: "readQueue ?fs = readQueue fs @ of_phase Read regs"
    "writeQueue ?fs = writeQueue fs @ of_phase Write regs"
    "postWriteQueue ?fs = postWriteQueue fs @ of_phase PostWrite regs"
    using fold_register_queues [of regs fs] by simp_all
  have tr: "snd (snd (pump ?fs s)) =
           map (\<lambda>c. Ran Read (label c)) (readQueue fs @ of_phase Read regs) @
           map (\<lambda>c. Ran Write (label c)) (writeQueue fs @ of_phase Write regs) @
           map (\<lambda>c. Ran PostWrite (label c)) (postWriteQueue fs @ of_phase PostWrite regs)"
    using pump_result [OF run mode, of s] by (simp only: q)
  have st: "fst (snd (pump ?fs s)) =
           fold (\<lambda>c s. fst (body c s))
             ((readQueue fs @ of_phase Read regs) @
              (writeQueue fs @ of_phase Write regs) @
              (postWriteQueue fs @ of_phase PostWrite regs)) s"
    using pump_result [OF run mode, of s] by (simp only: q)
  have "sorted (map rank (snd (snd (pump ?fs s))))"
    unfolding tr by (rule sorted_phases)
  with tr st show ?thesis by blast
qed

theorem pump_read_write_order_witness:
  "snd (pump
     (fold register
        [(Write, Cb 1 (\<lambda>x. (x * 2, []))),
         (Read, Cb 2 (\<lambda>x. (x + 5, []))),
         (PostWrite, Cb 3 (\<lambda>x. (x - 1, []))),
         (Read, Cb 4 (\<lambda>x. (x + 1, [(Read, Cb 5 (\<lambda>x. (x, [])))])))]
        \<lparr>readQueue = [], writeQueue = [], postWriteQueue = [], readWriteMode = True,
          state = Running, frameCallback = Cb 0 (\<lambda>x. (x, []))\<rparr>)
     (0::int)) =
   (11, [Ran Read 2, Ran Read 4, Ran Write 1, Ran PostWrite 3])"
  using pump_read_write_order
    [of "\<lparr>readQueue = [], writeQueue = [], postWriteQueue = [], readWriteMode = True,
          state = Running, frameCallback = Cb 0 (\<lambda>x. (x, []))\<rparr>"
        "[(Write, Cb 1 (\<lambda>x. (x * 2, []))),
         (Read, Cb 2 (\<lambda>x. (x + 5, []))),
         (PostWrite, Cb 3 (\<lambda>x. (x - 1, []))),
         (Read, Cb 4 (\<lambda>x. (x + 1, [(Read, Cb 5 (\<lambda>x. (x, [])))])))]"
        "0::int"]
  by (simp add: of_phase_def prod_eq_iff)

section \<open>Theorems about the Interpolator\<close>


text \<open>
  Evaluations of the model on the spec's examples: a segment from \<^verbatim>\<open>10px\<close> to \<^verbatim>\<open>20px\<close> gives
  \<^verbatim>\<open>15px\<close> at \<open>0.5\<close>; the segment \<open>[0,1] -> [0,500]\<close> extends linearly below \<open>0\<close>; two
  different units are a configuration error.
\<close>

lemma calculate_examples:
  "calculate [\<lparr>inputRange = \<lparr>range_from = 0, range_to = 1\<rparr>,
               outputRange = UnitTagged \<lparr>magnitude = 10, unit_of = ''px''\<rparr>
                                        \<lparr>magnitude = 20, unit_of = ''px''\<rparr>,
               easing = None\<rparr>] (1/2) = Inr (UnitString 15 ''px'') \<and>
   calculate [\<lparr>inputRange = \<lparr>range_from = 0, range_to = 1\<rparr>,
               outputRange = Numeric \<lparr>range_from = 0, range_to = 500\<rparr>,
               easing = None\<rparr>] (- (1/5)) = Inr (Number (- 100)) \<and>
   calculate [\<lparr>inputRange = \<lparr>range_from = 0, range_to = 1\<rparr>,
               outputRange = UnitTagged \<lparr>magnitude = 10, unit_of = ''px''\<rparr>
                                        \<lparr>magnitude = 20, unit_of = ''vh''\<rparr>,
               easing = None\<rparr>] 0 = Inl ConfigurationError"
  by (simp add: calculate_def select_segment_def contains_progress_def local_progress_def
        eased_def lerp_def Let_def)




end
